theory Spec2Isabelle
  imports Complex_Main
begin

section \<open>The dashboard's data types (web-ui/src/types.ts)\<close>

text \<open>
  A TypeScript \<^verbatim>\<open>number\<close> is modelled as a \<^typ>\<open>real\<close>: the finite values. \<^verbatim>\<open>NaN\<close> and
  the infinities are outside the model. Where the code divides, the quotient is rounded to
  an IEEE binary64 value (see \<^verbatim>\<open>round64\<close> below).
\<close>

record BenchmarkResult =
  dataset :: string
  algorithm :: string
  algorithm_version :: string
  dataset_version :: string
  system_version :: string
  compression_ratio :: real
  encode_time :: real
  decode_time :: real
  encode_mb_per_sec :: real
  decode_mb_per_sec :: real
  original_size :: real
  compressed_size :: real
  array_shape :: "real list"
  array_dtype :: string
  timestamp :: real

record BenchmarkData =
  results :: "BenchmarkResult list"

text \<open>
  The interface \<^verbatim>\<open>Algorithm\<close> is imported by the Algorithm page from \<^verbatim>\<open>../types\<close>; the
  record below holds the fields the page reads. \<^verbatim>\<open>source_file\<close> is tested for truthiness
  before it is rendered, so it may be absent.
\<close>

record Algorithm =
  name :: string
  description :: string
  version :: string
  tags :: "string list"
  source_file :: "string option"

subsection \<open>Interface declarations as data\<close>

text \<open>
  To compare a declared field set with the one the specification lists, an interface
  declaration is also kept as a value: the list of its fields, in declaration order, each
  with its type expression.
\<close>

datatype ts_type =
    TsString
  | TsNumber
  | TsArray ts_type
  | TsObject "(string \<times> ts_type) list"

text \<open>\<^verbatim>\<open>export interface BenchmarkResult\<close>, types.ts lines 1 to 17.\<close>

definition BenchmarkResult_interface :: "(string \<times> ts_type) list" where
  "BenchmarkResult_interface =
    [(''dataset'', TsString),
     (''algorithm'', TsString),
     (''algorithm_version'', TsString),
     (''dataset_version'', TsString),
     (''system_version'', TsString),
     (''compression_ratio'', TsNumber),
     (''encode_time'', TsNumber),
     (''decode_time'', TsNumber),
     (''encode_mb_per_sec'', TsNumber),
     (''decode_mb_per_sec'', TsNumber),
     (''original_size'', TsNumber),
     (''compressed_size'', TsNumber),
     (''array_shape'', TsArray TsNumber),
     (''array_dtype'', TsString),
     (''timestamp'', TsNumber)]"

text \<open>\<^verbatim>\<open>interface BenchmarkStatus\<close>, pages/Monitor.tsx lines 4 to 19.\<close>

definition BenchmarkStatus_interface :: "(string \<times> ts_type) list" where
  "BenchmarkStatus_interface =
    [(''current_dataset'', TsString),
     (''current_algorithm'', TsString),
     (''completed_count'', TsNumber),
     (''total_count'', TsNumber),
     (''progress_percentage'', TsNumber),
     (''elapsed_time'', TsNumber),
     (''last_update'', TsString),
     (''completed_benchmarks'',
        TsArray (TsObject
          [(''dataset'', TsString),
           (''algorithm'', TsString),
           (''compression_ratio'', TsNumber),
           (''encode_time'', TsNumber),
           (''decode_time'', TsNumber)]))]"

subsection \<open>The records of the specification's section 6\<close>

text \<open>
  The specification's two external records, written from its words: the field names in
  the order it lists them, each with the type it gives. The entries of
  \<^verbatim>\<open>completed_benchmarks\<close> are given by their field names only.
\<close>

datatype spec_type =
    SpecString
  | SpecFloat
  | SpecInt
  | SpecNumber
  | SpecSequence spec_type
  | SpecFields "string list"

definition spec_result_record :: "(string \<times> spec_type) list" where
  "spec_result_record =
    [(''dataset'', SpecString),
     (''algorithm'', SpecString),
     (''algorithm_version'', SpecString),
     (''dataset_version'', SpecString),
     (''system_version'', SpecString),
     (''compression_ratio'', SpecFloat),
     (''encode_time'', SpecFloat),
     (''decode_time'', SpecFloat),
     (''encode_mb_per_sec'', SpecFloat),
     (''decode_mb_per_sec'', SpecFloat),
     (''original_size'', SpecInt),
     (''compressed_size'', SpecInt),
     (''array_shape'', SpecSequence SpecInt),
     (''array_dtype'', SpecString),
     (''timestamp'', SpecNumber)]"

definition spec_status_record :: "(string \<times> spec_type) list" where
  "spec_status_record =
    [(''current_dataset'', SpecString),
     (''current_algorithm'', SpecString),
     (''completed_count'', SpecInt),
     (''total_count'', SpecInt),
     (''progress_percentage'', SpecFloat),
     (''elapsed_time'', SpecFloat),
     (''last_update'', SpecString),
     (''completed_benchmarks'',
        SpecSequence (SpecFields
          [''dataset'', ''algorithm'', ''compression_ratio'', ''encode_time'', ''decode_time'']))]"

text \<open>
  When a TypeScript type carries a type of the specification: strings are strings, every
  numeric type is \<^verbatim>\<open>number\<close>, a sequence is an array of the carried element type, and a
  record given by its field names is an object type with exactly those fields in order.
\<close>

fun carries :: "spec_type \<Rightarrow> ts_type \<Rightarrow> bool" where
  "carries SpecString t = (t = TsString)"
| "carries SpecFloat t = (t = TsNumber)"
| "carries SpecInt t = (t = TsNumber)"
| "carries SpecNumber t = (t = TsNumber)"
| "carries (SpecSequence s) t = (case t of TsArray u \<Rightarrow> carries s u | _ \<Rightarrow> False)"
| "carries (SpecFields ns) t = (case t of TsObject fs \<Rightarrow> map fst fs = ns | _ \<Rightarrow> False)"

definition same_field :: "string \<times> spec_type \<Rightarrow> string \<times> ts_type \<Rightarrow> bool" where
  "same_field sf tf = (fst sf = fst tf \<and> carries (snd sf) (snd tf))"

section \<open>The Algorithm page (web-ui/src/pages/Algorithm.tsx)\<close>

text \<open>
  What the component returns. \<^verbatim>\<open>NotFound\<close> is the element
  \<^verbatim>\<open><div>Algorithm not found</div>\<close>; \<^verbatim>\<open>AlgorithmView\<close> holds the parts of the page in
  the order they are rendered: the heading, the description, the version, the tag badges,
  the source link (when \<^verbatim>\<open>source_file\<close> is truthy) and, when benchmark data is loaded, the
  chart data handed to \<^verbatim>\<open>BenchmarkCharts\<close> with the rows handed to \<^verbatim>\<open>BenchmarkTable\<close>.
\<close>

datatype 'chart page =
    NotFound
  | AlgorithmView string string string "string list" "string option"
      "('chart \<times> BenchmarkResult list) option"

text \<open>\<^verbatim>\<open>x || null\<close> for a string: the empty string is falsy.\<close>

definition or_null :: "string option \<Rightarrow> string option" where
  "or_null x = (case x of None \<Rightarrow> None | Some s \<Rightarrow> if s = [] then None else Some s)"

text \<open>
  The component. \<^verbatim>\<open>useParams\<close> gives \<^verbatim>\<open>algorithmName\<close> as a string or \<^verbatim>\<open>undefined\<close>, and
  \<^verbatim>\<open>===\<close> never equates a name with \<^verbatim>\<open>undefined\<close>. The hook \<^verbatim>\<open>useBenchmarkChartData\<close>
  is a parameter: it is called before the early return, with the results (or the empty
  array), \<^verbatim>\<open>null\<close> and the matched name.
\<close>

definition Algorithm_page ::
  "(BenchmarkResult list \<Rightarrow> string option \<Rightarrow> string option \<Rightarrow> 'chart) \<Rightarrow>
   string option \<Rightarrow> Algorithm list \<Rightarrow> BenchmarkData option \<Rightarrow> 'chart page" where
  "Algorithm_page useBenchmarkChartData algorithmName algorithms benchmarkData =
    (let found = find (\<lambda>a. Some (name a) = algorithmName) algorithms;
         chartData = useBenchmarkChartData
           (case benchmarkData of None \<Rightarrow> [] | Some d \<Rightarrow> results d)
           None
           (or_null (map_option name found))
     in case found of
          None \<Rightarrow> NotFound
        | Some a \<Rightarrow>
            AlgorithmView (name a) (description a) (version a) (tags a)
              (or_null (source_file a))
              (case benchmarkData of
                 None \<Rightarrow> None
               | Some d \<Rightarrow>
                   Some (chartData,
                         filter (\<lambda>result. algorithm result = name a) (results d))))"

text \<open>The rows of the results table of a rendered page, when it has one.\<close>

fun table_rows :: "'chart page \<Rightarrow> BenchmarkResult list option" where
  "table_rows NotFound = None"
| "table_rows (AlgorithmView h d v ts src sec) = map_option snd sec"

text \<open>Sample data for the page: a result of a dataset and an algorithm, and an algorithm.\<close>

definition sample_result :: "string \<Rightarrow> string \<Rightarrow> BenchmarkResult" where
  "sample_result d a =
     \<lparr>dataset = d, algorithm = a, algorithm_version = ''1.0'', dataset_version = ''2'',
      system_version = ''1'', compression_ratio = 2, encode_time = 1, decode_time = 1,
      encode_mb_per_sec = 4, decode_mb_per_sec = 4, original_size = 4000000,
      compressed_size = 2000000, array_shape = [1000000], array_dtype = ''float32'',
      timestamp = 0\<rparr>"

definition sample_algorithm :: "string \<Rightarrow> Algorithm" where
  "sample_algorithm n =
     \<lparr>name = n, description = ''lossless'', version = ''1.0'', tags = [''zlib''],
      source_file = None\<rparr>"

section \<open>The monitor page (web-ui/src/pages/Monitor.tsx)\<close>

subsection \<open>Numbers\<close>

text \<open>
  The numbers of JavaScript are IEEE binary64 values. For a positive real \<open>x\<close>,
  \<^verbatim>\<open>binade x\<close> is the exponent \<open>e\<close> with \<open>2\<^sup>e \<le> x < 2\<^sup>e\<^sup>+\<^sup>1\<close>, found by halving or
  doubling \<open>x\<close>.
\<close>

function exp_up :: "real \<Rightarrow> int" where
  "exp_up x = (if x < 2 then 0 else exp_up (x / 2) + 1)"
  by pat_completeness auto
termination
proof (relation "measure (\<lambda>x. nat \<lfloor>x\<rfloor>)")
  show "wf (measure (\<lambda>x. nat \<lfloor>x\<rfloor>))" by simp
next
  fix x :: real
  assume "\<not> x < 2"
  then have "x / 2 \<le> x - 1" by simp
  then have "\<lfloor>x / 2\<rfloor> \<le> \<lfloor>x - 1\<rfloor>" by (rule floor_mono)
  moreover have "1 \<le> \<lfloor>x\<rfloor>" using \<open>\<not> x < 2\<close> by linarith
  ultimately show "(x / 2, x) \<in> measure (\<lambda>x. nat \<lfloor>x\<rfloor>)" by simp
qed

function exp_down :: "real \<Rightarrow> int" where
  "exp_down x = (if x \<le> 0 \<or> 1 \<le> x then 0 else exp_down (2 * x) - 1)"
  by pat_completeness auto
termination
proof (relation "measure (\<lambda>x. nat \<lceil>1 / x\<rceil>)")
  show "wf (measure (\<lambda>x. nat \<lceil>1 / x\<rceil>))" by simp
next
  fix x :: real
  assume a: "\<not> (x \<le> 0 \<or> 1 \<le> x)"
  then have x: "0 < x" "x < 1" by auto
  then have y: "1 < 1 / x" by simp
  have "1 / (2 * x) + 1 / 2 \<le> 1 / x" using y x by (simp add: field_simps)
  have "\<lceil>1 / (2 * x)\<rceil> < \<lceil>1 / x\<rceil>"
  proof (cases "1 / x \<le> 2")
    case True
    then have "1 / (2 * x) \<le> 1" using x by (simp add: field_simps)
    then have "\<lceil>1 / (2 * x)\<rceil> \<le> 1" by (simp add: ceiling_le_one)
    moreover have "2 \<le> \<lceil>1 / x\<rceil>" using y by linarith
    ultimately show ?thesis by linarith
  next
    case False
    then have "1 / (2 * x) \<le> 1 / x - 1" using x by (simp add: field_simps)
    then have "\<lceil>1 / (2 * x)\<rceil> \<le> \<lceil>1 / x - 1\<rceil>" by (rule ceiling_mono)
    then show ?thesis by simp
  qed
  moreover have "0 < \<lceil>1 / x\<rceil>" using y by linarith
  ultimately show "(2 * x, x) \<in> measure (\<lambda>x. nat \<lceil>1 / x\<rceil>)" by simp
qed

declare exp_up.simps [simp del] exp_down.simps [simp del]

definition binade :: "real \<Rightarrow> int" where
  "binade x = (if 1 \<le> x then exp_up x else exp_down x)"

text \<open>
  The distance between neighbouring binary64 values around \<open>x > 0\<close>: 52 fraction bits
  below the exponent, which is at least \<open>-1022\<close> (below that the values are subnormal).
\<close>

definition ulp :: "real \<Rightarrow> real" where
  "ulp x = 2 powi (max (binade x) (- 1022) - 52)"

text \<open>Rounding to the nearest integer, a tie to the even one.\<close>

definition round_half_even :: "real \<Rightarrow> int" where
  "round_half_even y =
     (let f = \<lfloor>y\<rfloor>; r = y - of_int f
      in if r < 1 / 2 then f else if 1 / 2 < r then f + 1 else if even f then f else f + 1)"

text \<open>
  The binary64 value nearest to a real, ties to even: the rounding every arithmetic
  operation of JavaScript applies to its exact result. Results of magnitude \<open>2\<^sup>1\<^sup>0\<^sup>2\<^sup>4\<close> or
  more (overflow to infinity) are outside the model.
\<close>

definition round64 :: "real \<Rightarrow> real" where
  "round64 x =
     (if x = 0 then 0
      else sgn x * (of_int (round_half_even (\<bar>x\<bar> / ulp \<bar>x\<bar>)) * ulp \<bar>x\<bar>))"

text \<open>A real is a finite binary64 value: rounding leaves it as it is.\<close>

definition is_double :: "real \<Rightarrow> bool" where
  "is_double x = (round64 x = x \<and> \<bar>x\<bar> < 2 ^ 1024)"

text \<open>The division \<^verbatim>\<open>/\<close> of JavaScript on finite numbers with a non-zero divisor.\<close>

definition fdiv :: "real \<Rightarrow> real \<Rightarrow> real" where
  "fdiv a b = round64 (a / b)"

subsection \<open>formatTime\<close>

text \<open>
  The remainder operator \<^verbatim>\<open>%\<close> of JavaScript on finite numbers with a non-zero divisor:
  the quotient is truncated towards zero, so the result has the sign of the dividend.
  The result is a binary64 value, so the operator does not round.
\<close>

definition js_trunc :: "real \<Rightarrow> int" where
  "js_trunc x = (if 0 \<le> x then \<lfloor>x\<rfloor> else \<lceil>x\<rceil>)"

definition js_rem :: "real \<Rightarrow> real \<Rightarrow> real" where
  "js_rem a b = a - b * of_int (js_trunc (a / b))"

text \<open>
  The three constants of \<^verbatim>\<open>formatTime\<close>; \<^verbatim>\<open>Math.floor\<close> is the floor of the reals, and
  both divisions round their quotient before it is floored.
\<close>

definition hours :: "real \<Rightarrow> int" where
  "hours seconds = \<lfloor>fdiv seconds 3600\<rfloor>"

definition minutes :: "real \<Rightarrow> int" where
  "minutes seconds = \<lfloor>fdiv (js_rem seconds 3600) 60\<rfloor>"

definition remainingSeconds :: "real \<Rightarrow> int" where
  "remainingSeconds seconds = \<lfloor>js_rem seconds 60\<rfloor>"

text \<open>
  The template literal. The conversion of a number to a string that the template applies
  is the parameter \<^verbatim>\<open>toStr\<close>, here on integral values.
\<close>

definition formatTime :: "(int \<Rightarrow> string) \<Rightarrow> real \<Rightarrow> string" where
  "formatTime toStr seconds =
     toStr (hours seconds) @ ''h '' @ toStr (minutes seconds) @ ''m '' @
     toStr (remainingSeconds seconds) @ ''s''"

text \<open>
  The conversion JavaScript applies to an integral number of magnitude up to \<open>2\<^sup>5\<^sup>3\<close>: its
  decimal digits, after a minus sign when negative.
\<close>

fun digits10 :: "nat \<Rightarrow> string" where
  "digits10 n =
     (if n < 10 then [''0123456789'' ! n]
      else digits10 (n div 10) @ [''0123456789'' ! (n mod 10)])"

definition decimal :: "int \<Rightarrow> string" where
  "decimal i = (if i < 0 then CHR ''-'' # digits10 (nat (- i)) else digits10 (nat i))"

text \<open>
  The mathematical remainder the specification writes as \<open>s mod m\<close>, on the reals.
\<close>

definition real_mod :: "real \<Rightarrow> real \<Rightarrow> real" where
  "real_mod x m = x - m * of_int \<lfloor>x / m\<rfloor>"

subsection \<open>Polling\<close>

text \<open>
  The effect of the component runs once when it is mounted (its dependency list is
  empty). It calls \<^verbatim>\<open>fetchStatus\<close>, then registers it with \<^verbatim>\<open>setInterval\<close> and a delay of
  30000 milliseconds; the cleanup it returns clears that interval. The calls the effect
  body makes, in order:
\<close>

datatype effect_call = CallFetchStatus | SetInterval nat

definition Monitor_effect :: "effect_call list" where
  "Monitor_effect = [CallFetchStatus, SetInterval 30000]"

text \<open>
  The timer of the browser, in whole milliseconds: an interval registered at time \<open>t\<close>
  with delay \<open>d\<close> fires at \<open>t + d\<close>, \<open>t + 2 d\<close>, ... for as long as it has not been cleared.
  \<^verbatim>\<open>interval_fires d t stop\<close> lists the times it fires before it is cleared at \<open>stop\<close>.
\<close>

function interval_fires :: "nat \<Rightarrow> nat \<Rightarrow> nat \<Rightarrow> nat list" where
  "interval_fires d t stop =
     (if d = 0 \<or> stop \<le> t + d then []
      else (t + d) # interval_fires d (t + d) stop)"
  by pat_completeness auto
termination
  by (relation "measure (\<lambda>(d, t, stop). stop - t)") auto

declare interval_fires.simps [simp del]

text \<open>
  The times at which \<^verbatim>\<open>fetchStatus\<close> is called when the effect body runs at time \<open>t\<close> and
  the component is unmounted at time \<open>stop\<close>.
\<close>

fun fetch_times :: "effect_call list \<Rightarrow> nat \<Rightarrow> nat \<Rightarrow> nat list" where
  "fetch_times [] t stop = []"
| "fetch_times (CallFetchStatus # cs) t stop = t # fetch_times cs t stop"
| "fetch_times (SetInterval d # cs) t stop = interval_fires d t stop @ fetch_times cs t stop"

section \<open>The orchestration engine\<close>

text \<open>
  The engine (registry, cache, execution engine, verifier, result store, orchestrator) is
  the Python package of the repository; its sources are not part of this development,
  which has the web dashboard only. The definitions of this section are written from the
  specification's sections 3 to 5. The result record is the one of types.ts above. The
  model is sequential: the keys of a run are processed one after the other, each through
  the whole state machine of section 4.6, so the reservation of in-flight keys among
  concurrent workers has no counterpart here. Cache entries are results, so a malformed
  entry (\<^verbatim>\<open>CacheCorruption\<close>) cannot occur.
\<close>

subsection \<open>Data model\<close>

text \<open>
  Modelled from the spec: the BenchmarkKey of section 3, the four fields that identify a
  cached unit of work. Two keys are equal iff all four fields are. The version fields
  carry the prefix \<^verbatim>\<open>key_\<close> to keep them apart from the result's.
\<close>

record BenchmarkKey =
  dataset_name :: string
  algorithm_name :: string
  key_dataset_version :: string
  key_algorithm_version :: string

text \<open>
  Modelled from the spec: a data array, with the shape and dtype of the DatasetComponent
  that generates it.
\<close>

record ndarray =
  shape :: "nat list"
  dtype :: string
  elements :: "real list"

text \<open>
  Modelled from the spec: the kinds of ExecutionError of the execution engine's contract
  (section 4.4).
\<close>

datatype ExecutionError = Timeout | Crash | InvalidOutput

text \<open>
  Modelled from the spec: the ExecutionOutcome of the execution engine's contract
  (section 4.4): the encoded bytes, the two wall-clock times and the decoded array.
\<close>

record ExecutionOutcome =
  encoded_bytes :: "nat list"
  measured_encode_time :: real
  measured_decode_time :: real
  decoded_array :: ndarray

text \<open>
  Modelled from the spec: why a pair ends in the state Failed (section 7): an execution
  error or a verification failure.
\<close>

datatype failure = ExecutionFailed ExecutionError | VerificationFailure

text \<open>
  Modelled from the spec: a completed summary, an entry of \<^verbatim>\<open>completed_benchmarks\<close> in the
  status record of section 6. The fields carry the prefix \<^verbatim>\<open>summary_\<close> to keep them apart
  from the result's.
\<close>

record CompletedBenchmark =
  summary_dataset :: string
  summary_algorithm :: string
  summary_compression_ratio :: real
  summary_encode_time :: real
  summary_decode_time :: real

text \<open>
  Modelled from the spec: RunProgress (section 3), with the fields of the status record
  of section 6.
\<close>

record RunProgress =
  current_dataset :: string
  current_algorithm :: string
  completed_count :: nat
  total_count :: nat
  progress_percentage :: real
  elapsed_time :: real
  last_update :: string
  completed_benchmarks :: "CompletedBenchmark list"

subsection \<open>Fingerprint cache\<close>

text \<open>
  Modelled from the spec: the two tiers of the Fingerprint Cache (section 4.3), each a
  map from keys to results.
\<close>

record fingerprint_cache =
  local_tier :: "BenchmarkKey \<Rightarrow> BenchmarkResult option"
  remote_tier :: "BenchmarkKey \<Rightarrow> BenchmarkResult option"

text \<open>Modelled from the spec: the empty cache of the scenario of section 8.\<close>

definition empty_cache :: fingerprint_cache where
  "empty_cache = \<lparr>local_tier = Map.empty, remote_tier = Map.empty\<rparr>"

text \<open>
  Modelled from the spec: \<^verbatim>\<open>get(key)\<close> checks local first, then remote; on a remote hit
  it populates local before returning. When the remote tier cannot be reached
  (\<^verbatim>\<open>RemoteUnavailable\<close>), the lookup degrades to local only.
\<close>

definition get ::
  "bool \<Rightarrow> fingerprint_cache \<Rightarrow> BenchmarkKey \<Rightarrow> BenchmarkResult option \<times> fingerprint_cache" where
  "get remote_up c k =
     (case local_tier c k of
        Some r \<Rightarrow> (Some r, c)
      | None \<Rightarrow>
          if remote_up then
            (case remote_tier c k of
               Some r \<Rightarrow> (Some r, c\<lparr>local_tier := (local_tier c)(k \<mapsto> r)\<rparr>)
             | None \<Rightarrow> (None, c))
          else (None, c))"

text \<open>
  Modelled from the spec: \<^verbatim>\<open>put(key, result)\<close> writes to local; the write to remote is
  best effort and its failure is not fatal.
\<close>

definition put ::
  "bool \<Rightarrow> fingerprint_cache \<Rightarrow> BenchmarkKey \<Rightarrow> BenchmarkResult \<Rightarrow> fingerprint_cache" where
  "put remote_up c k r =
     c\<lparr>local_tier := (local_tier c)(k \<mapsto> r),
       remote_tier := (if remote_up then (remote_tier c)(k \<mapsto> r) else remote_tier c)\<rparr>"

subsection \<open>Collaborators\<close>

text \<open>
  Modelled from the spec: what the orchestrator is given for a run. The dataset
  generator, the algorithm's declared tolerance, the execution engine's \<^verbatim>\<open>run\<close> and the
  verifier's \<^verbatim>\<open>verify\<close> are the contracts of sections 4.4 and 4.5; the concrete encode and
  decode operations are outside the specification. The rest is the environment: whether
  the remote tier answers, the size of an element of a dtype, the system version and the
  clock.
\<close>

record environment =
  generate :: "BenchmarkKey \<Rightarrow> ndarray"
  declared_tolerance :: "BenchmarkKey \<Rightarrow> (real \<times> real) option"
  run :: "BenchmarkKey \<Rightarrow> ExecutionError + ExecutionOutcome"
  verify :: "ndarray \<Rightarrow> ndarray \<Rightarrow> (real \<times> real) option \<Rightarrow> bool"
  remote_up :: "BenchmarkKey \<Rightarrow> bool"
  itemsize :: "string \<Rightarrow> nat"
  running_system_version :: string
  clock :: "BenchmarkKey \<Rightarrow> real"
  clock_iso :: "BenchmarkKey \<Rightarrow> string"
  started :: real

subsection \<open>Results and progress\<close>

text \<open>
  Modelled from the spec: throughput is the original size in bytes over the time, in
  MB/s (section 4.4).
\<close>

definition mb_per_sec :: "real \<Rightarrow> real \<Rightarrow> real" where
  "mb_per_sec bytes secs = bytes / secs / 1000000"

text \<open>
  Modelled from the spec: the BenchmarkResult of a verified execution. The identity
  fields are the key's; \<^verbatim>\<open>compression_ratio\<close> is original size over compressed size
  (section 3, invariant c), computed from the measured byte sizes.
\<close>

definition make_result ::
  "environment \<Rightarrow> BenchmarkKey \<Rightarrow> ndarray \<Rightarrow> ExecutionOutcome \<Rightarrow> BenchmarkResult" where
  "make_result env k x out =
     (let original = real (length (elements x) * itemsize env (dtype x));
          compressed = real (length (encoded_bytes out))
      in \<lparr>dataset = dataset_name k,
          algorithm = algorithm_name k,
          algorithm_version = key_algorithm_version k,
          dataset_version = key_dataset_version k,
          system_version = running_system_version env,
          compression_ratio = original / compressed,
          encode_time = measured_encode_time out,
          decode_time = measured_decode_time out,
          encode_mb_per_sec = mb_per_sec original (measured_encode_time out),
          decode_mb_per_sec = mb_per_sec original (measured_decode_time out),
          original_size = original,
          compressed_size = compressed,
          array_shape = map real (shape x),
          array_dtype = dtype x,
          timestamp = clock env k\<rparr>)"

text \<open>
  Modelled from the spec: the summary of a result in the progress record.
\<close>

definition summary_of :: "BenchmarkResult \<Rightarrow> CompletedBenchmark" where
  "summary_of r =
     \<lparr>summary_dataset = dataset r, summary_algorithm = algorithm r,
      summary_compression_ratio = compression_ratio r,
      summary_encode_time = encode_time r, summary_decode_time = decode_time r\<rparr>"

text \<open>
  Modelled from the spec: the state of an orchestrator run: the cache, the Result Store,
  the failed pairs with their reasons (section 7) and the single live RunProgress.
\<close>

record orchestrator =
  cache :: fingerprint_cache
  result_store :: "BenchmarkResult list"
  failed :: "(BenchmarkKey \<times> failure) list"
  progress :: RunProgress

text \<open>
  Modelled from the spec: the Result Store merges; a result replaces the stored one of
  the same dataset and algorithm.
\<close>

definition merge_result :: "BenchmarkResult \<Rightarrow> BenchmarkResult list \<Rightarrow> BenchmarkResult list" where
  "merge_result r rs =
     filter (\<lambda>x. \<not> (dataset x = dataset r \<and> algorithm x = algorithm r)) rs @ [r]"

text \<open>
  Modelled from the spec: the orchestrator updates RunProgress after every terminal
  transition, Stored or Failed (section 4.6).
\<close>

definition update_progress ::
  "environment \<Rightarrow> BenchmarkKey \<Rightarrow> BenchmarkResult option \<Rightarrow> RunProgress \<Rightarrow> RunProgress" where
  "update_progress env k stored p =
     p\<lparr>current_dataset := dataset_name k,
       current_algorithm := algorithm_name k,
       completed_count := completed_count p + 1,
       progress_percentage := 100 * real (completed_count p + 1) / real (total_count p),
       elapsed_time := clock env k - started env,
       last_update := clock_iso env k,
       completed_benchmarks :=
         (case stored of
            None \<Rightarrow> completed_benchmarks p
          | Some r \<Rightarrow> completed_benchmarks p @ [summary_of r])\<rparr>"

subsection \<open>Orchestrator\<close>

text \<open>
  Modelled from the spec: the terminal transition to Stored. It puts the result into the
  Result Store and updates the progress.
\<close>

definition to_stored :: "environment \<Rightarrow> BenchmarkKey \<Rightarrow> BenchmarkResult \<Rightarrow> orchestrator \<Rightarrow> orchestrator" where
  "to_stored env k r s =
     s\<lparr>result_store := merge_result r (result_store s),
       progress := update_progress env k (Some r) (progress s)\<rparr>"

text \<open>
  Modelled from the spec: the terminal transition to Failed. It records the pair with its
  reason, leaves the Result Store as it is and updates the progress.
\<close>

definition to_failed :: "environment \<Rightarrow> BenchmarkKey \<Rightarrow> failure \<Rightarrow> orchestrator \<Rightarrow> orchestrator" where
  "to_failed env k why s =
     s\<lparr>failed := failed s @ [(k, why)],
       progress := update_progress env k None (progress s)\<rparr>"

text \<open>
  Modelled from the spec: the state machine of one key (section 4.6). A cache hit goes
  to Stored with the cached result, without executing. On a miss the pair is executed;
  an execution error is Failed; otherwise the decoded array is verified against the
  original, and only a verified result is put into the cache and stored.
\<close>

definition process_key :: "environment \<Rightarrow> orchestrator \<Rightarrow> BenchmarkKey \<Rightarrow> orchestrator" where
  "process_key env s k =
     (case get (remote_up env k) (cache s) k of
        (Some r, c) \<Rightarrow> to_stored env k r (s\<lparr>cache := c\<rparr>)
      | (None, c) \<Rightarrow>
          (case run env k of
             Inl e \<Rightarrow> to_failed env k (ExecutionFailed e) (s\<lparr>cache := c\<rparr>)
           | Inr out \<Rightarrow>
               if verify env (generate env k) (decoded_array out) (declared_tolerance env k)
               then
                 (let r = make_result env k (generate env k) out
                  in to_stored env k r (s\<lparr>cache := put (remote_up env k) c k r\<rparr>))
               else to_failed env k VerificationFailure (s\<lparr>cache := c\<rparr>)))"

text \<open>
  Modelled from the spec: a run starts with an empty store and a progress record whose
  \<^verbatim>\<open>total_count\<close> is the number of resolved keys.
\<close>

definition start :: "fingerprint_cache \<Rightarrow> BenchmarkKey list \<Rightarrow> orchestrator" where
  "start c keys =
     \<lparr>cache = c, result_store = [], failed = [],
      progress =
        \<lparr>current_dataset = [], current_algorithm = [], completed_count = 0,
         total_count = length keys, progress_percentage = 0, elapsed_time = 0,
         last_update = [], completed_benchmarks = []\<rparr>\<rparr>"

text \<open>
  Modelled from the spec: the orchestrator drives the pipeline over the resolved keys in
  order. \<^verbatim>\<open>run_trace\<close> lists the successive states: the one it is given, then the state
  after each key.
\<close>

fun run_trace :: "environment \<Rightarrow> orchestrator \<Rightarrow> BenchmarkKey list \<Rightarrow> orchestrator list" where
  "run_trace env s [] = [s]"
| "run_trace env s (k # ks) = s # run_trace env (process_key env s k) ks"

text \<open>Modelled from the spec: a run of the orchestrator, from a cache and the resolved keys.\<close>

definition orchestrate :: "environment \<Rightarrow> fingerprint_cache \<Rightarrow> BenchmarkKey list \<Rightarrow> orchestrator list" where
  "orchestrate env c keys = run_trace env (start c keys) keys"

text \<open>
  Modelled from the spec: the cache a run starts from is the one earlier runs left
  behind, beginning with the empty cache. The list holds the earlier runs, the latest
  first, each with its collaborators and its keys.
\<close>

fun cache_after :: "(environment \<times> BenchmarkKey list) list \<Rightarrow> fingerprint_cache" where
  "cache_after [] = empty_cache"
| "cache_after ((env, keys) # earlier) =
     cache (last (orchestrate env (cache_after earlier) keys))"

subsection \<open>Predicates on results\<close>



text \<open>
  A result went through a successful verification in a run: it is the result made of
  the outcome of one of the run's keys, and the verifier accepted that outcome. In a
  history of runs, it did so in one of them.
\<close>

definition verified_in_run :: "environment \<Rightarrow> BenchmarkKey list \<Rightarrow> BenchmarkResult \<Rightarrow> bool" where
  "verified_in_run env keys r =
     list_ex
       (\<lambda>k. case run env k of
              Inl e \<Rightarrow> False
            | Inr out \<Rightarrow>
                verify env (generate env k) (decoded_array out) (declared_tolerance env k) \<and>
                r = make_result env k (generate env k) out)
       keys"

definition verified_in_history ::
  "(environment \<times> BenchmarkKey list) list \<Rightarrow> BenchmarkResult \<Rightarrow> bool" where
  "verified_in_history runs r = list_ex (\<lambda>(env, keys). verified_in_run env keys r) runs"

text \<open>
  A result is held by a tier of the cache; the invariant of a run: what the store and
  the cache hold satisfies \<open>V\<close> or was verified in the run.
\<close>

definition cached :: "fingerprint_cache \<Rightarrow> BenchmarkResult \<Rightarrow> bool" where
  "cached c r = (\<exists>k. local_tier c k = Some r \<or> remote_tier c k = Some r)"

definition provenance ::
  "(BenchmarkResult \<Rightarrow> bool) \<Rightarrow> environment \<Rightarrow> BenchmarkKey list \<Rightarrow> orchestrator \<Rightarrow> bool" where
  "provenance V env keys s =
     ((\<forall>r\<in>set (result_store s). V r \<or> verified_in_run env keys r) \<and>
      (\<forall>r. cached (cache s) r \<longrightarrow> V r \<or> verified_in_run env keys r))"

subsection \<open>Executions of a run\<close>







subsection \<open>The worker pool\<close>

text \<open>
  Modelled from the spec: the states of the per-key state machine of section 4.6, as the
  phase of a worker of the pool of section 5. A worker that meets a reserved key waits
  for the winner's result and does not run the key.
\<close>

datatype phase =
    Idle
  | Pending BenchmarkKey
  | CacheHit BenchmarkKey BenchmarkResult
  | CacheMiss BenchmarkKey
  | Waiting BenchmarkKey
  | Reserved BenchmarkKey
  | Running BenchmarkKey
  | Verified BenchmarkKey BenchmarkResult

text \<open>
  Modelled from the spec: the shared state of a run with concurrent workers: the
  orchestrator's state (the cache, the Result Store and the progress are shared under
  exclusive writes), the keys marked reserved, the log of the executions that were
  started, and the phase of every worker.
\<close>

record pool =
  engine :: orchestrator
  reserved :: "BenchmarkKey set"
  execution_log :: "BenchmarkKey list"
  workers :: "nat \<Rightarrow> phase"

text \<open>
  Modelled from the spec: the atomic steps a scheduler interleaves. A worker is handed
  a key, a worker makes the next transition of its state machine, or a waiting worker
  gives up.
\<close>

datatype action = Dispatch nat BenchmarkKey | Advance nat | Abandon nat

text \<open>
  Modelled from the spec: a worker changes phase.
\<close>

definition set_phase :: "nat \<Rightarrow> phase \<Rightarrow> pool \<Rightarrow> pool" where
  "set_phase w ph p = p\<lparr>workers := (workers p)(w := ph)\<rparr>"

text \<open>
  Modelled from the spec: a worker consults the cache for its key. A hit leads to
  CacheHit; on a miss a pending worker goes to CacheMiss and a waiting worker keeps
  waiting.
\<close>

definition lookup :: "environment \<Rightarrow> nat \<Rightarrow> BenchmarkKey \<Rightarrow> pool \<Rightarrow> pool" where
  "lookup env w k p =
     (case get (remote_up env k) (cache (engine p)) k of
        (Some r, c) \<Rightarrow> set_phase w (CacheHit k r) (p\<lparr>engine := (engine p)\<lparr>cache := c\<rparr>\<rparr>)
      | (None, c) \<Rightarrow>
          set_phase w (case workers p w of Waiting k' \<Rightarrow> Waiting k' | _ \<Rightarrow> CacheMiss k)
            (p\<lparr>engine := (engine p)\<lparr>cache := c\<rparr>\<rparr>))"

text \<open>
  Modelled from the spec: the next transition of a worker. On a miss the worker marks
  the key reserved before execution starts, in one step with the test that it is free; a
  worker that finds the key reserved waits and re-reads the cache instead of running it.
  The execution is logged when it starts. Only a verified result is put into the cache
  and stored.
\<close>

definition advance :: "environment \<Rightarrow> nat \<Rightarrow> pool \<Rightarrow> pool" where
  "advance env w p =
     (case workers p w of
        Idle \<Rightarrow> p
      | Pending k \<Rightarrow> lookup env w k p
      | CacheHit k r \<Rightarrow> set_phase w Idle (p\<lparr>engine := to_stored env k r (engine p)\<rparr>)
      | CacheMiss k \<Rightarrow>
          if k \<in> reserved p then set_phase w (Waiting k) p
          else set_phase w (Reserved k) (p\<lparr>reserved := insert k (reserved p)\<rparr>)
      | Waiting k \<Rightarrow> lookup env w k p
      | Reserved k \<Rightarrow> set_phase w (Running k) (p\<lparr>execution_log := execution_log p @ [k]\<rparr>)
      | Running k \<Rightarrow>
          (case run env k of
             Inl e \<Rightarrow>
               set_phase w Idle (p\<lparr>engine := to_failed env k (ExecutionFailed e) (engine p)\<rparr>)
           | Inr out \<Rightarrow>
               if verify env (generate env k) (decoded_array out) (declared_tolerance env k)
               then set_phase w (Verified k (make_result env k (generate env k) out)) p
               else set_phase w Idle
                      (p\<lparr>engine := to_failed env k VerificationFailure (engine p)\<rparr>))
      | Verified k r \<Rightarrow>
          set_phase w Idle
            (p\<lparr>engine :=
                 to_stored env k r
                   ((engine p)\<lparr>cache := put (remote_up env k) (cache (engine p)) k r\<rparr>)\<rparr>))"

text \<open>
  Modelled from the spec: one step of the schedule. Only a resolved key is dispatched,
  and only to an idle worker; a step that is not enabled leaves the state as it is.
\<close>

definition perform :: "environment \<Rightarrow> BenchmarkKey list \<Rightarrow> pool \<Rightarrow> action \<Rightarrow> pool" where
  "perform env keys p a =
     (case a of
        Dispatch w k \<Rightarrow>
          if workers p w = Idle \<and> k \<in> set keys then set_phase w (Pending k) p else p
      | Advance w \<Rightarrow> advance env w p
      | Abandon w \<Rightarrow>
          (case workers p w of Waiting k \<Rightarrow> set_phase w Idle p | _ \<Rightarrow> p))"



text \<open>
  The schedule of one worker that takes a key through its whole state machine.
\<close>

definition key_schedule :: "nat \<Rightarrow> BenchmarkKey \<Rightarrow> action list" where
  "key_schedule w k = [Dispatch w k, Advance w, Advance w, Advance w, Advance w, Advance w]"


text \<open>
  Sample collaborators: every execution succeeds but the one of the algorithm
  \<^verbatim>\<open>broken\<close>, which crashes; the algorithm \<^verbatim>\<open>lossy\<close> decodes to a different array; the
  verifier demands equality.
\<close>

definition sample_key :: "string \<Rightarrow> BenchmarkKey" where
  "sample_key a =
     \<lparr>dataset_name = ''ephys_sample'', algorithm_name = a,
      key_dataset_version = ''2'', key_algorithm_version = ''1.0''\<rparr>"

definition sample_array :: ndarray where
  "sample_array = \<lparr>shape = [2, 2], dtype = ''float32'', elements = [1, 2, 3, 4]\<rparr>"

definition sample_outcome :: "BenchmarkKey \<Rightarrow> ExecutionOutcome" where
  "sample_outcome k =
     \<lparr>encoded_bytes = [120, 156, 1, 2, 3, 4, 5, 6],
      measured_encode_time = 2, measured_decode_time = 1,
      decoded_array =
        (if algorithm_name k = ''lossy'' then sample_array\<lparr>elements := [1, 2, 3, 5]\<rparr>
         else sample_array)\<rparr>"

definition sample_env :: environment where
  "sample_env =
     \<lparr>generate = (\<lambda>k. sample_array),
      declared_tolerance = (\<lambda>k. None),
      run = (\<lambda>k. if algorithm_name k = ''broken'' then Inl Crash else Inr (sample_outcome k)),
      verify = (\<lambda>x y tol. x = y),
      remote_up = (\<lambda>k. True),
      itemsize = (\<lambda>d. 4),
      running_system_version = ''1'',
      clock = (\<lambda>k. 10),
      clock_iso = (\<lambda>k. ''2026-01-01T00:00:00Z''),
      started = 0\<rparr>"


section \<open>Properties of the monitor page\<close>

subsection \<open>Rounding\<close>

lemma exp_up_bounds: "1 \<le> x \<Longrightarrow> 2 powi exp_up x \<le> x \<and> x < 2 powi (exp_up x + 1)"
proof (induction x rule: exp_up.induct)
  case (1 x)
  show ?case
  proof (cases "x < 2")
    case True
    then show ?thesis using "1.prems" by (simp add: exp_up.simps [of x])
  next
    case False
    then have "1 \<le> x / 2" by simp
    from "1.IH" [OF False this]
    have ih: "2 powi exp_up (x / 2) \<le> x / 2" "x / 2 < 2 powi (exp_up (x / 2) + 1)" by auto
    have e: "exp_up x = exp_up (x / 2) + 1" using False by (simp add: exp_up.simps [of x])
    have p: "\<And>i. (2::real) powi (i + 1) = 2 * 2 powi i"
      by (simp add: power_int_add)
    have "2 powi (exp_up (x / 2) + 1) \<le> x"
      using ih(1) unfolding p by linarith
    moreover have "x < 2 powi (exp_up (x / 2) + 1 + 1)"
      using ih(2) unfolding p by linarith
    ultimately show ?thesis unfolding e by simp
  qed
qed

lemma exp_down_bounds:
  "0 < x \<Longrightarrow> x < 1 \<Longrightarrow> 2 powi exp_down x \<le> x \<and> x < 2 powi (exp_down x + 1)"
proof (induction x rule: exp_down.induct)
  case (1 x)
  have e: "exp_down x = exp_down (2 * x) - 1"
    using "1.prems" by (simp add: exp_down.simps [of x])
  show ?case
  proof (cases "2 * x < 1")
    case True
    from "1.IH" "1.prems" True
    have ih: "2 powi exp_down (2 * x) \<le> 2 * x" "2 * x < 2 powi (exp_down (2 * x) + 1)" by auto
    have p: "(2::real) powi (exp_down (2 * x) + 1) = 2 * 2 powi exp_down (2 * x)"
      by (simp add: power_int_add)
    have q: "(2::real) powi (exp_down (2 * x) - 1) = 2 powi exp_down (2 * x) / 2"
      by (simp add: power_int_diff)
    show ?thesis unfolding e using ih by (simp add: p q)
  next
    case False
    then have "exp_down (2 * x) = 0" by (simp add: exp_down.simps [of "2 * x"])
    then show ?thesis unfolding e using False "1.prems" by simp
  qed
qed

lemma binade_bounds:
  assumes "0 < x"
  shows "2 powi binade x \<le> x" and "x < 2 powi (binade x + 1)"
  using assms exp_up_bounds [of x] exp_down_bounds [of x]
  by (auto simp: binade_def not_le)

lemma round_half_even_ge:
  assumes "of_int j \<le> y"
  shows "j \<le> round_half_even y"
proof -
  have "j \<le> \<lfloor>y\<rfloor>" using assms by (simp add: le_floor_iff)
  then show ?thesis by (simp add: round_half_even_def Let_def)
qed

lemma round_half_even_less:
  assumes "y < of_int j - 1 / 2"
  shows "round_half_even y < j"
proof -
  have "y < of_int j" using assms by linarith
  then have f: "\<lfloor>y\<rfloor> < j" by (simp add: floor_less_iff)
  show ?thesis
  proof (cases "\<lfloor>y\<rfloor> = j - 1")
    case True
    then have "y - of_int \<lfloor>y\<rfloor> < 1 / 2" using assms by simp
    then show ?thesis using True by (simp add: round_half_even_def Let_def)
  next
    case False
    then have "\<lfloor>y\<rfloor> + 1 < j" using f by linarith
    then show ?thesis by (simp add: round_half_even_def Let_def)
  qed
qed

lemma ulp_pos: "0 < ulp x"
  by (simp add: ulp_def)

lemma ulp_inverse:
  assumes "max (binade q) (- 1022) \<le> 52"
  shows "ulp q * 2 ^ nat (52 - max (binade q) (- 1022)) = 1"
proof -
  let ?E = "max (binade q) (- 1022)"
  have "(2::real) ^ nat (52 - ?E) = 2 powi (52 - ?E)"
    using assms by (simp add: power_int_def)
  then have "ulp q * 2 ^ nat (52 - ?E) = 2 powi (?E - 52) * 2 powi (52 - ?E)"
    by (simp add: ulp_def)
  also have "\<dots> = 2 powi ((?E - 52) + (52 - ?E))"
    using power_int_add [of "2::real" "?E - 52" "52 - ?E"] by simp
  finally show ?thesis by simp
qed

lemma floor_round64:
  assumes q: "0 < q" and E: "max (binade q) (- 1022) \<le> 52"
    and gap: "q < of_int \<lfloor>q\<rfloor> + 1 - ulp q / 2"
  shows "\<lfloor>round64 q\<rfloor> = \<lfloor>q\<rfloor>"
proof -
  define N :: int where "N = 2 ^ nat (52 - max (binade q) (- 1022))"
  define u where "u = ulp q"
  define n where "n = \<lfloor>q\<rfloor>"
  have uN: "u * of_int N = 1"
    unfolding u_def N_def using ulp_inverse [OF E] by simp
  have Nu: "of_int N * u = 1"
    using uN by (simp only: mult.commute)
  have u: "0 < u" unfolding u_def by (rule ulp_pos)
  have N: "0 < N" unfolding N_def by simp
  have qu: "q / u = q * of_int N"
    using uN u by (simp add: field_simps)
  have r: "round64 q = of_int (round_half_even (q * of_int N)) * u"
    using q by (simp add: round64_def u_def [symmetric] qu)
  have "of_int n \<le> q" unfolding n_def by simp
  then have "of_int (n * N) \<le> q * of_int N"
    using N by simp
  then have lo: "n * N \<le> round_half_even (q * of_int N)"
    by (rule round_half_even_ge)
  have "q < of_int n + 1 - u / 2"
    using gap unfolding n_def u_def .
  then have "q * of_int N < (of_int n + 1 - u / 2) * of_int N"
    using N by simp
  also have "\<dots> = of_int ((n + 1) * N) - (u * of_int N) / 2"
    by (simp add: algebra_simps)
  finally have "q * of_int N < of_int ((n + 1) * N) - 1 / 2"
    by (simp only: uN)
  then have hi: "round_half_even (q * of_int N) < (n + 1) * N"
    by (rule round_half_even_less)
  have "(of_int (n * N) :: real) \<le> of_int (round_half_even (q * of_int N))"
    using lo by (simp only: of_int_le_iff)
  then have "of_int (n * N) * u \<le> of_int (round_half_even (q * of_int N)) * u"
    using u by (simp only: mult_le_cancel_right_pos)
  moreover have "of_int (n * N) * u = of_int n"
    by (simp only: of_int_mult mult.assoc Nu mult_1_right)
  ultimately have a: "of_int n \<le> round64 q"
    unfolding r by (simp only:)
  have "(of_int (round_half_even (q * of_int N)) :: real) < of_int ((n + 1) * N)"
    using hi by (simp only: of_int_less_iff)
  then have "of_int (round_half_even (q * of_int N)) * u < of_int ((n + 1) * N) * u"
    using u by (simp only: mult_less_cancel_right_pos)
  moreover have "of_int ((n + 1) * N) * u = of_int (n + 1)"
    by (simp only: of_int_mult mult.assoc Nu mult_1_right)
  ultimately have "round64 q < of_int (n + 1)"
    unfolding r by (simp only:)
  then have b: "round64 q < of_int n + 1"
    by simp
  from a b show ?thesis
    unfolding n_def by (simp add: floor_eq_iff)
qed

lemma p2_mono: "a \<le> b \<Longrightarrow> (2::real) powi a \<le> 2 powi b"
  by (rule power_int_increasing) simp_all

lemma p2_less_D: "(2::real) powi a < 2 powi b \<Longrightarrow> a < b"
  using p2_mono [of b a] by (cases "a < b") simp_all

lemma p2_add: "(2::real) powi (a + b) = 2 powi a * 2 powi b"
  by (simp add: power_int_add)

lemma p2_split:
  assumes "k \<le> j"
  shows "(2::real) powi j = of_int (2 ^ nat (j - k)) * 2 powi k"
proof -
  have "(2::real) powi j = 2 powi ((j - k) + k)" by simp
  also have "\<dots> = 2 powi (j - k) * 2 powi k" by (rule p2_add)
  also have "(2::real) powi (j - k) = 2 ^ nat (j - k)"
    using assms by (simp add: power_int_def)
  finally show ?thesis by simp
qed

lemma floor_fdiv:
  fixes D :: int and a L B :: nat
  assumes s: "s = of_int m * 2 powi k" and m: "0 < m" "m < 2 ^ 53"
    and D: "(2::int) ^ a dvd D" "2 ^ L \<le> D" "D < 2 ^ (L + 1)"
    and B: "s < of_int D * 2 ^ B" "B \<le> 53" "D * 2 ^ B < 2 ^ (a + 54)"
  shows "\<lfloor>round64 (s / of_int D)\<rfloor> = \<lfloor>s / of_int D\<rfloor>"
proof -
  define q where "q = s / of_int D"
  define n where "n = \<lfloor>q\<rfloor>"
  define e where "e = binade q"
  have Dpos: "0 < D"
    using D(2) by (smt (verit) zero_less_power)
  have rD: "(0::real) < of_int D" using Dpos by simp
  have spos: "0 < s" using s m by simp
  have qpos: "0 < q" unfolding q_def using spos rD by simp
  have e_lo: "2 powi e \<le> q" and e_hi: "q < 2 powi (e + 1)"
    unfolding e_def using binade_bounds [OF qpos] by auto
  have sq: "s = q * of_int D" unfolding q_def using rD by simp
  have "q * of_int D < 2 ^ B * of_int D" using B(1) sq by (simp add: mult.commute)
  then have qB: "q < 2 powi (int B)" using rD by simp
  have eB: "e < int B" using e_lo qB by (intro p2_less_D) linarith
  have E52: "max (binade q) (- 1022) \<le> 52"
    using eB B(2) unfolding e_def by simp
  have n_hi: "q < of_int n + 1" unfolding n_def by linarith
  have gap: "q < of_int \<lfloor>q\<rfloor> + 1 - ulp q / 2"
  proof (cases "e < - 1022")
    case True
    then have "(2::real) powi (e + 1) \<le> 2 powi (- 1)" by (intro p2_mono) simp
    then have q2: "q < 1 / 2" using e_hi by simp
    then have "\<lfloor>q\<rfloor> = 0" using qpos by (simp add: floor_eq_iff)
    moreover have "ulp q \<le> 2 powi 0"
      unfolding ulp_def using True e_def by (intro p2_mono) simp
    ultimately show ?thesis using q2 by simp
  next
    case False
    then have u: "ulp q = 2 powi (e - 52)"
      unfolding ulp_def e_def by (simp add: max_def)
    define k' where "k' = min k (int a)"
    obtain c0 where c0: "D = 2 ^ a * c0" using D(1) by (auto simp: dvd_def)
    have "(2::real) powi (int a) = of_int (2 ^ nat (int a - k')) * 2 powi k'"
      by (rule p2_split) (simp add: k'_def)
    then have Dk: "(of_int D :: real) = of_int (c0 * 2 ^ nat (int a - k')) * 2 powi k'"
      unfolding c0 by simp
    have "(2::real) powi k = of_int (2 ^ nat (k - k')) * 2 powi k'"
      by (rule p2_split) (simp add: k'_def)
    then have sk: "s = of_int (m * 2 ^ nat (k - k')) * 2 powi k'"
      unfolding s by simp
    define j where "j = c0 * 2 ^ nat (int a - k') * (n + 1) - m * 2 ^ nat (k - k')"
    have d: "of_int D * (of_int n + 1) - s = of_int j * 2 powi k'"
      unfolding j_def by (subst Dk, subst sk) (simp add: algebra_simps)
    have "s < of_int D * (of_int n + 1)"
      using n_hi rD sq by (simp add: mult.commute)
    then have "0 < of_int j * (2::real) powi k'" using d by linarith
    then have "(0::real) < of_int j" by (rule zero_less_mult_pos2) simp
    then have "0 < j" by simp
    then have "(1::real) \<le> of_int j" by linarith
    then have "1 * 2 powi k' \<le> of_int j * (2::real) powi k'"
      by (intro mult_right_mono) simp_all
    then have d_lo: "2 powi k' \<le> of_int D * (of_int n + 1) - s"
      using d by simp
    have Du: "of_int D * ulp q / 2 < 2 powi k'"
    proof (cases "k \<le> int a")
      case True
      then have k': "k' = k" by (simp add: k'_def)
      have "s < 2 ^ 53 * 2 powi k"
        unfolding s using m(2) by (intro mult_strict_right_mono) simp_all
      moreover have "(2::real) ^ L * q \<le> of_int D * q"
        using D(2) qpos by (intro mult_right_mono) (simp_all flip: of_int_le_iff)
      ultimately have "2 ^ L * q < 2 ^ 53 * 2 powi k"
        using sq by (simp add: mult.commute)
      moreover have "(2::real) ^ L * 2 powi e \<le> 2 ^ L * q"
        using e_lo by (intro mult_left_mono) simp_all
      ultimately have "(2::real) ^ L * 2 powi e < 2 ^ 53 * 2 powi k"
        by linarith
      then have "(2::real) powi (int L) * 2 powi e < 2 powi 53 * 2 powi k"
        by simp
      then have "(2::real) powi (int L + e) < 2 powi (53 + k)"
        by (simp only: p2_add)
      then have "int L + e < 53 + k" by (rule p2_less_D)
      then have "ulp q \<le> 2 powi (k - int L)"
        unfolding u by (intro p2_mono) simp
      moreover have "(of_int D :: real) < 2 powi (int L + 1)"
      proof -
        have "(of_int D :: real) < of_int (2 ^ (L + 1))"
          using D(3) by (simp only: of_int_less_iff)
        also have "(of_int (2 ^ (L + 1)) :: real) = 2 powi (int L + 1)"
          by (simp add: power_int_add)
        finally show ?thesis .
      qed
      ultimately have "of_int D * ulp q < 2 powi (int L + 1) * 2 powi (k - int L)"
        using rD ulp_pos [of q] by (intro mult_less_le_imp_less) simp_all
      also have "\<dots> = 2 powi (k + 1)"
        by (simp flip: p2_add add: add.commute)
      also have "\<dots> = 2 * 2 powi k" by (simp add: p2_add)
      finally show ?thesis unfolding k' by simp
    next
      case False
      then have k': "k' = int a" by (simp add: k'_def)
      have "ulp q \<le> 2 powi (int B - 53)"
        unfolding u using eB by (intro p2_mono) simp
      then have "of_int D * ulp q \<le> of_int D * 2 powi (int B - 53)"
        using rD by simp
      also have "\<dots> = of_int (D * 2 ^ B) * 2 powi (- 53)"
        using p2_add [of "int B" "- 53"] by simp
      also have "\<dots> < of_int (2 ^ (a + 54)) * 2 powi (- 53)"
        using B(3) by (intro mult_strict_right_mono) (simp_all only: of_int_less_iff zero_less_power_int zero_less_numeral)
      also have "\<dots> = 2 * 2 powi (int a)"
      proof -
        have e1: "(of_int (2 ^ (a + 54)) :: real) = 2 powi (int (a + 54))"
          by (simp only: of_int_power of_int_numeral power_int_of_nat)
        have e2: "(2::real) powi (int (a + 54)) * 2 powi (- 53) = 2 powi (int (a + 54) + (- 53))"
          by (rule p2_add [symmetric])
        have e3: "int (a + 54) + (- 53) = int a + 1"
          by simp
        have e4: "(2::real) powi (int a + 1) = 2 powi (int a) * 2 powi 1"
          by (rule p2_add)
        show ?thesis
          by (simp only: e1 e2 e3 e4) simp
      qed
      finally show ?thesis unfolding k' by simp
    qed
    have "of_int D * (ulp q / 2) < of_int D * (of_int n + 1) - of_int D * q"
      using Du d_lo sq by (simp add: mult.commute)
    then have "of_int D * (q + ulp q / 2) < of_int D * (of_int n + 1)"
      by (simp add: algebra_simps)
    then have "q + ulp q / 2 < of_int n + 1"
      using rD by (simp only: mult_less_cancel_left_pos)
    then show ?thesis unfolding n_def by linarith
  qed
  show ?thesis
    using floor_round64 [OF qpos E52 gap] unfolding q_def .
qed

subsection \<open>The divisions of formatTime\<close>

lemma double_grid:
  assumes "round64 s = s" and "0 < s"
  shows "\<exists>m k. s = of_int m * 2 powi k \<and> 0 < m \<and> m < 2 ^ 53"
proof -
  define E where "E = max (binade s) (- 1022)"
  define m where "m = round_half_even (s / ulp s)"
  have u: "ulp s = 2 powi (E - 52)" by (simp add: ulp_def E_def)
  have s: "s = of_int m * 2 powi (E - 52)"
    using assms by (simp add: round64_def m_def u)
  have "(0::real) < of_int m * 2 powi (E - 52)" using s assms(2) by simp
  then have "(0::real) < of_int m" by (rule zero_less_mult_pos2) simp
  then have m0: "0 < m" by simp
  have "s < 2 powi (binade s + 1)" using binade_bounds(2) [OF assms(2)] .
  also have "\<dots> \<le> 2 powi (E + 1)" by (intro p2_mono) (simp add: E_def)
  also have "\<dots> = 2 powi (53 + (E - 52))"
    by (rule arg_cong [where f = "\<lambda>i. 2 powi i"]) arith
  also have "\<dots> = 2 powi 53 * 2 powi (E - 52)" by (rule p2_add)
  finally have "s < 2 powi 53 * 2 powi (E - 52)" .
  then have "m < 2 ^ 53" using s by simp
  with s m0 show ?thesis by blast
qed

lemma real_mod_range:
  assumes "0 < m"
  shows "0 \<le> real_mod x m" and "real_mod x m < m"
proof -
  have "of_int \<lfloor>x / m\<rfloor> \<le> x / m" by simp
  then have "of_int \<lfloor>x / m\<rfloor> * m \<le> x"
    by (simp only: pos_le_divide_eq [OF assms])
  then show "0 \<le> real_mod x m" by (simp add: real_mod_def mult.commute)
  have "x / m < of_int \<lfloor>x / m\<rfloor> + 1" by linarith
  then have "x < (of_int \<lfloor>x / m\<rfloor> + 1) * m"
    by (simp only: pos_divide_less_eq [OF assms])
  then show "real_mod x m < m" by (simp add: real_mod_def algebra_simps)
qed

lemma real_mod_grid:
  fixes D :: int
  assumes s: "s = of_int m * 2 powi k" and m: "0 < m" "m < 2 ^ 53"
    and D: "0 < D" "D \<le> 2 ^ 53" and r: "0 < real_mod s (of_int D)"
  shows "\<exists>m' k'. real_mod s (of_int D) = of_int m' * 2 powi k' \<and> 0 < m' \<and> m' < 2 ^ 53"
proof -
  define t where "t = \<lfloor>s / of_int D\<rfloor>"
  define k' where "k' = min k 0"
  define m' where "m' = m * 2 ^ nat (k - k') - D * t * 2 ^ nat (0 - k')"
  have spos: "0 < s" using s m by simp
  have t0: "0 \<le> t" unfolding t_def using spos D(1) by simp
  have "(2::real) powi k = of_int (2 ^ nat (k - k')) * 2 powi k'"
    by (rule p2_split) (simp add: k'_def)
  then have sk: "s = of_int (m * 2 ^ nat (k - k')) * 2 powi k'"
    unfolding s by simp
  have "(2::real) powi 0 = of_int (2 ^ nat (0 - k')) * 2 powi k'"
    by (rule p2_split) (simp add: k'_def)
  then have one: "(1::real) = of_int (2 ^ nat (0 - k')) * 2 powi k'" by simp
  have "of_int D * of_int t = of_int (D * t) * (1::real)" by simp
  also have "\<dots> = of_int (D * t * 2 ^ nat (0 - k')) * 2 powi k'"
    by (subst one) simp
  finally have Dt: "of_int D * of_int t = of_int (D * t * 2 ^ nat (0 - k')) * (2::real) powi k'" .
  have rm: "real_mod s (of_int D) = of_int m' * 2 powi k'"
    unfolding real_mod_def t_def [symmetric] Dt m'_def
    by (subst sk) (simp add: algebra_simps)
  have "(0::real) < of_int m' * 2 powi k'" using r rm by simp
  then have "(0::real) < of_int m'" by (rule zero_less_mult_pos2) simp
  then have m0: "0 < m'" by simp
  have "m' < 2 ^ 53"
  proof (cases "0 \<le> k")
    case True
    then have k0: "k' = 0" by (simp add: k'_def)
    have "real_mod s (of_int D) < of_int D"
      using D(1) by (intro real_mod_range) simp
    then have "(of_int m' :: real) < of_int D" using rm k0 by simp
    then have "m' < D" by (simp only: of_int_less_iff)
    then show ?thesis using D(2) by linarith
  next
    case False
    then have "k' = k" by (simp add: k'_def)
    then have "m' = m - D * t * 2 ^ nat (0 - k)" by (simp add: m'_def)
    moreover have "0 \<le> D * t * 2 ^ nat (0 - k)" using D(1) t0 by simp
    ultimately show ?thesis using m(2) by linarith
  qed
  with rm m0 show ?thesis by blast
qed

lemma js_rem_nonneg:
  assumes "0 \<le> s" and "0 < b"
  shows "js_rem s b = real_mod s b"
  using assms by (simp add: js_rem_def js_trunc_def real_mod_def)

lemma hours_exact:
  assumes "is_double s" and "0 \<le> s" and "s < 3600 * 2 ^ 46"
  shows "hours s = \<lfloor>s / 3600\<rfloor>"
proof (cases "s = 0")
  case True
  then show ?thesis by (simp add: hours_def fdiv_def round64_def)
next
  case False
  then have spos: "0 < s" using assms(2) by simp
  have rs: "round64 s = s" using assms(1) by (simp add: is_double_def)
  obtain m k where g: "s = of_int m * 2 powi k" "0 < m" "m < 2 ^ 53"
    using double_grid [OF rs spos] by blast
  have "\<lfloor>round64 (s / of_int (3600::int))\<rfloor> = \<lfloor>s / of_int (3600::int)\<rfloor>"
    using g
  proof (rule floor_fdiv [where a = 4 and L = 11 and B = 46])
    show "(2::int) ^ 4 dvd 3600" by simp
    show "s < of_int 3600 * 2 ^ 46" using assms(3) by simp
  qed simp_all
  then show ?thesis by (simp add: hours_def fdiv_def)
qed

lemma minutes_exact:
  assumes "is_double s" and "0 \<le> s"
  shows "minutes s = \<lfloor>real_mod s 3600 / 60\<rfloor>"
proof -
  let ?r = "real_mod s 3600"
  have r: "js_rem s 3600 = ?r" using assms(2) by (simp add: js_rem_nonneg)
  have range: "0 \<le> ?r" "?r < 3600"
    using real_mod_range [of 3600 s] by simp_all
  have "\<lfloor>round64 (?r / 60)\<rfloor> = \<lfloor>?r / 60\<rfloor>"
  proof (cases "?r = 0")
    case True
    then show ?thesis by (simp add: round64_def)
  next
    case False
    then have rpos: "0 < real_mod s (of_int 3600)" using range by simp
    have "s \<noteq> 0" using False by (auto simp: real_mod_def)
    then have spos: "0 < s" using assms(2) by simp
    have rs: "round64 s = s" using assms(1) by (simp add: is_double_def)
    obtain m k where g: "s = of_int m * 2 powi k" "0 < m" "m < 2 ^ 53"
      using double_grid [OF rs spos] by blast
    have "\<exists>m' k'. real_mod s (of_int 3600) = of_int m' * 2 powi k' \<and> 0 < m' \<and> m' < 2 ^ 53"
      using g _ _ rpos by (rule real_mod_grid) simp_all
    then obtain m' k' where g': "real_mod s (of_int 3600) = of_int m' * 2 powi k'" "0 < m'" "m' < 2 ^ 53"
      by blast
    have "\<lfloor>round64 (real_mod s (of_int 3600) / of_int (60::int))\<rfloor>
            = \<lfloor>real_mod s (of_int 3600) / of_int (60::int)\<rfloor>"
      using g'
    proof (rule floor_fdiv [where a = 2 and L = 5 and B = 6])
      show "(2::int) ^ 2 dvd 60" by simp
      show "real_mod s (of_int 3600) < of_int 60 * 2 ^ 6" using range by simp
    qed simp_all
    then show ?thesis by simp
  qed
  then show ?thesis by (simp add: minutes_def fdiv_def r)
qed

lemma floor_real_mod:
  assumes "0 < m"
  shows "\<lfloor>real_mod s (of_int m)\<rfloor> = \<lfloor>s\<rfloor> mod m"
proof -
  have "\<lfloor>s / of_int m\<rfloor> = \<lfloor>s\<rfloor> div m"
    using assms floor_divide_real_eq_div [of m s] by simp
  then have "real_mod s (of_int m) = s - of_int (m * (\<lfloor>s\<rfloor> div m))"
    by (simp add: real_mod_def)
  then have "\<lfloor>real_mod s (of_int m)\<rfloor> = \<lfloor>s\<rfloor> - m * (\<lfloor>s\<rfloor> div m)"
    by (simp only: floor_diff_of_int)
  then show ?thesis
    by (simp add: minus_mult_div_eq_mod)
qed

lemma hms_recompose: "(n::int) div 3600 * 3600 + n mod 3600 div 60 * 60 + n mod 60 = n"
proof -
  have "n mod 3600 mod 60 = n mod 60"
    by (simp add: mod_mod_cancel)
  then have "n mod 3600 div 60 * 60 + n mod 60 = n mod 3600"
    by (metis div_mult_mod_eq)
  then show ?thesis
    by (metis add.assoc div_mult_mod_eq)
qed

text \<open>
  C10, as amended. For every non-negative binary64 number of seconds \<open>s\<close> below
  \<open>3600 * 2\<^sup>4\<^sup>6\<close> (about \<open>2.53e17\<close>), \<^verbatim>\<open>formatTime(s)\<close> is the string \<open>H\<close>\<^verbatim>\<open>h \<close>\<open>M\<close>\<^verbatim>\<open>m \<close>\<open>S\<close>\<^verbatim>\<open>s\<close>
  with \<open>H = floor (s / 3600)\<close>, \<open>M = floor ((s mod 3600) / 60)\<close> and
  \<open>S = floor (s mod 60)\<close>, and \<open>H * 3600 + M * 60 + S\<close> is the floor of \<open>s\<close>: the whole
  seconds are decomposed without loss (for an integer \<open>s\<close>, the sum is \<open>s\<close> itself).
\<close>

theorem formatTime_decomposition:
  assumes "is_double s" and "0 \<le> s" and "s < 3600 * 2 ^ 46"
  shows "formatTime toStr s =
           toStr \<lfloor>s / 3600\<rfloor> @ ''h '' @ toStr \<lfloor>real_mod s 3600 / 60\<rfloor> @ ''m '' @
           toStr \<lfloor>real_mod s 60\<rfloor> @ ''s''
         \<and> \<lfloor>s / 3600\<rfloor> * 3600 + \<lfloor>real_mod s 3600 / 60\<rfloor> * 60 + \<lfloor>real_mod s 60\<rfloor> = \<lfloor>s\<rfloor>"
proof -
  have hrs: "hours s = \<lfloor>s / 3600\<rfloor>"
    using assms by (rule hours_exact)
  have mins: "minutes s = \<lfloor>real_mod s 3600 / 60\<rfloor>"
    using assms(1,2) by (rule minutes_exact)
  have secs: "remainingSeconds s = \<lfloor>real_mod s 60\<rfloor>"
    using assms(2) by (simp add: remainingSeconds_def js_rem_nonneg)
  have str: "formatTime toStr s =
           toStr \<lfloor>s / 3600\<rfloor> @ ''h '' @ toStr \<lfloor>real_mod s 3600 / 60\<rfloor> @ ''m '' @
           toStr \<lfloor>real_mod s 60\<rfloor> @ ''s''"
    by (simp only: formatTime_def hrs mins secs)
  have h: "\<lfloor>s / 3600\<rfloor> = \<lfloor>s\<rfloor> div 3600"
    using floor_divide_real_eq_div [of 3600 s] by simp
  have r: "\<lfloor>real_mod s 3600\<rfloor> = \<lfloor>s\<rfloor> mod 3600"
    using floor_real_mod [of 3600 s] by simp
  have "\<lfloor>real_mod s 3600 / 60\<rfloor> = \<lfloor>real_mod s 3600\<rfloor> div 60"
    using floor_divide_real_eq_div [of 60 "real_mod s 3600"] by simp
  then have m: "\<lfloor>real_mod s 3600 / 60\<rfloor> = \<lfloor>s\<rfloor> mod 3600 div 60"
    by (simp only: r)
  have sec: "\<lfloor>real_mod s 60\<rfloor> = \<lfloor>s\<rfloor> mod 60"
    using floor_real_mod [of 60 s] by simp
  have sum: "\<lfloor>s / 3600\<rfloor> * 3600 + \<lfloor>real_mod s 3600 / 60\<rfloor> * 60 + \<lfloor>real_mod s 60\<rfloor> = \<lfloor>s\<rfloor>"
    by (simp only: h m sec hms_recompose)
  from str sum show ?thesis
    by blast
qed

theorem formatTime_decomposition_witness:
  "is_double 3725.5 \<and> (0::real) \<le> 3725.5 \<and> (3725.5::real) < 3600 * 2 ^ 46
   \<and> formatTime decimal 3725.5 = ''1h 2m 5s''
   \<and> \<lfloor>(3725.5::real) / 3600\<rfloor> * 3600 + \<lfloor>real_mod 3725.5 3600 / 60\<rfloor> * 60
       + \<lfloor>real_mod 3725.5 60\<rfloor> = 3725"
proof -
  have d: "is_double 3725.5"
    by (simp add: is_double_def round64_def ulp_def binade_def exp_up.simps
        round_half_even_def Let_def)
  have n: "(0::real) \<le> 3725.5" and b: "(3725.5::real) < 3600 * 2 ^ 46"
    by simp_all
  from formatTime_decomposition [OF d n b, of decimal] d show ?thesis
    by (simp add: real_mod_def decimal_def)
qed

text \<open>
  At \<open>s = 10\<^sup>1\<^sup>9\<close>, a binary64 value, the quotient \<open>s / 3600 = 2777777777777777.77...\<close> lies
  between two binary64 values that are \<open>1/2\<close> apart and rounds up to \<open>2777777777777778\<close>
  before it is floored. The hours of the string are one more than \<open>floor (s / 3600)\<close>, and
  the three fields recompose to \<open>s + 3600\<close>.
\<close>

theorem formatTime_decomposition_counterexample:
  "is_double (10 ^ 19) \<and> (0::real) \<le> 10 ^ 19
   \<and> formatTime decimal (10 ^ 19) = ''2777777777777778h 46m 40s''
   \<and> \<lfloor>(10 ^ 19 :: real) / 3600\<rfloor> = 2777777777777777
   \<and> hours (10 ^ 19) * 3600 + minutes (10 ^ 19) * 60 + remainingSeconds (10 ^ 19)
       = \<lfloor>10 ^ 19 :: real\<rfloor> + 3600
   \<and> hours (10 ^ 19) * 3600 + minutes (10 ^ 19) * 60 + remainingSeconds (10 ^ 19)
       \<noteq> \<lfloor>10 ^ 19 :: real\<rfloor>"
proof -
  have d: "is_double (10 ^ 19)"
    by (simp add: is_double_def round64_def ulp_def binade_def exp_up.simps
        round_half_even_def Let_def)
  have h: "hours (10 ^ 19) = 2777777777777778"
    by (simp add: hours_def fdiv_def round64_def ulp_def binade_def exp_up.simps
        round_half_even_def Let_def)
  have m: "minutes (10 ^ 19) = 46"
    by (simp add: minutes_def fdiv_def js_rem_def js_trunc_def round64_def ulp_def binade_def
        exp_up.simps round_half_even_def Let_def)
  have s: "remainingSeconds (10 ^ 19) = 40"
    by (simp add: remainingSeconds_def js_rem_def js_trunc_def)
  have str: "formatTime decimal (10 ^ 19) = ''2777777777777778h 46m 40s''"
    unfolding formatTime_def h m s by (simp add: decimal_def)
  show ?thesis
    unfolding h m s using d str by simp
qed

text \<open>
  The interval fires at the multiples of its delay after registration that lie before the
  time it is cleared.
\<close>

lemma interval_fires_closed:
  assumes "0 < d"
  shows "interval_fires d t stop = map (\<lambda>k. t + d * k) [1 ..< (stop - t + d - 1) div d]"
  using assms
proof (induction d t stop rule: interval_fires.induct)
  case (1 d t stop)
  show ?case
  proof (cases "stop \<le> t + d")
    case True
    then have "stop - t + d - 1 < 2 * d" using "1.prems" by simp
    then have "(stop - t + d - 1) div d < 2"
      using "1.prems" by (simp add: div_less_iff_less_mult mult.commute)
    then have "[1 ..< (stop - t + d - 1) div d] = []" by simp
    with True show ?thesis by (simp add: interval_fires.simps [of d t stop])
  next
    case False
    define n where "n = (stop - t + d - 1) div d"
    have eq: "stop - t + d - 1 = (stop - (t + d) + d - 1) + d" using False by simp
    have n': "n = Suc ((stop - (t + d) + d - 1) div d)"
      unfolding n_def using "1.prems" by (simp only: eq div_add_self2)
    have "2 * d \<le> stop - t + d - 1" using False by simp
    then have n2: "2 \<le> n" unfolding n_def using "1.prems"
      by (simp add: less_eq_div_iff_mult_less_eq mult.commute)
    have ih: "interval_fires d (t + d) stop = map (\<lambda>k. t + d + d * k) [1 ..< n - 1]"
      using "1.IH" False "1.prems" n' by simp
    have s: "[Suc 1 ..< n] = map Suc [1 ..< n - 1]"
      using n2 by (simp add: map_Suc_upt)
    have "map (\<lambda>k. t + d * k) [1 ..< n] = (t + d) # map (\<lambda>k. t + d * k) [Suc 1 ..< n]"
      using n2 by (simp add: upt_conv_Cons)
    also have "map (\<lambda>k. t + d * k) [Suc 1 ..< n] = map (\<lambda>k. t + d + d * k) [1 ..< n - 1]"
      unfolding s by (simp add: add.assoc)
    finally have "map (\<lambda>k. t + d * k) [1 ..< n] = (t + d) # map (\<lambda>k. t + d + d * k) [1 ..< n - 1]" .
    then show ?thesis
      using False "1.prems" ih unfolding n_def
      by (simp add: interval_fires.simps [of d t stop])
  qed
qed

text \<open>
  C8. The status record the monitor consumes has exactly the fields \<^verbatim>\<open>current_dataset\<close>,
  \<^verbatim>\<open>current_algorithm\<close>, \<^verbatim>\<open>completed_count\<close>, \<^verbatim>\<open>total_count\<close>, \<^verbatim>\<open>progress_percentage\<close>,
  \<^verbatim>\<open>elapsed_time\<close>, \<^verbatim>\<open>last_update\<close> and \<^verbatim>\<open>completed_benchmarks\<close>, the last an array of
  records with \<^verbatim>\<open>dataset\<close>, \<^verbatim>\<open>algorithm\<close>, \<^verbatim>\<open>compression_ratio\<close>, \<^verbatim>\<open>encode_time\<close> and
  \<^verbatim>\<open>decode_time\<close>, each field carrying the type the specification lists. The monitor
  fetches the status once when it is mounted (at time \<open>t\<close>) and then every 30 seconds
  (30000 milliseconds), at \<open>t + 30000 k\<close> for \<open>k = 1, 2, ...\<close>, until it is unmounted.
\<close>

theorem BenchmarkStatus_interface_and_polling:
  "map fst BenchmarkStatus_interface =
     [''current_dataset'', ''current_algorithm'', ''completed_count'', ''total_count'',
      ''progress_percentage'', ''elapsed_time'', ''last_update'', ''completed_benchmarks'']
   \<and> distinct (map fst BenchmarkStatus_interface)
   \<and> list_all2 same_field spec_status_record BenchmarkStatus_interface
   \<and> Monitor_effect = [CallFetchStatus, SetInterval (30 * 1000)]
   \<and> fetch_times Monitor_effect t stop =
       t # map (\<lambda>k. t + 30 * 1000 * k) [1 ..< (stop - t + 29999) div 30000]"
proof -
  have "interval_fires 30000 t stop =
          map (\<lambda>k. t + 30000 * k) [1 ..< (stop - t + 30000 - 1) div 30000]"
    by (rule interval_fires_closed) simp
  moreover have "stop - t + 30000 - 1 = stop - t + 29999"
    by simp
  ultimately have "fetch_times Monitor_effect t stop =
       t # map (\<lambda>k. t + 30 * 1000 * k) [1 ..< (stop - t + 29999) div 30000]"
    by (simp add: Monitor_effect_def add.commute)
  then show ?thesis
    by (simp add: BenchmarkStatus_interface_def spec_status_record_def same_field_def
        Monitor_effect_def)
qed

theorem BenchmarkStatus_interface_and_polling_witness:
  "fetch_times Monitor_effect 0 100000 = [0, 30000, 60000, 90000]"
  using BenchmarkStatus_interface_and_polling [of 0 100000]
  by (simp add: upt_conv_Cons)

section \<open>Properties of the dashboard's types and of the Algorithm page\<close>

text \<open>
  C7. The result record served to the dashboard has exactly the fifteen fields the
  specification lists, in its order and under distinct names, and the interface
  \<^verbatim>\<open>BenchmarkResult\<close> the dashboard consumes declares each of them with the TypeScript type
  that carries the listed one (string; \<^verbatim>\<open>number\<close> for float, int and number;
  \<^verbatim>\<open>number[]\<close> for the sequence of int).
\<close>

theorem BenchmarkResult_interface_matches_spec:
  "map fst BenchmarkResult_interface =
     [''dataset'', ''algorithm'', ''algorithm_version'', ''dataset_version'',
      ''system_version'', ''compression_ratio'', ''encode_time'', ''decode_time'',
      ''encode_mb_per_sec'', ''decode_mb_per_sec'', ''original_size'', ''compressed_size'',
      ''array_shape'', ''array_dtype'', ''timestamp'']
   \<and> distinct (map fst BenchmarkResult_interface)
   \<and> list_all2 same_field spec_result_record BenchmarkResult_interface"
  by (simp add: BenchmarkResult_interface_def spec_result_record_def same_field_def)

text \<open>
  C9. On the Algorithm page with benchmark data loaded: when no registered algorithm has
  the name in the URL, the page is "Algorithm not found" and shows no results table;
  when \<^verbatim>\<open>find\<close> matches an algorithm, its name is the URL's, the page is rendered, and
  the rows of its results table are exactly the loaded results whose \<^verbatim>\<open>algorithm\<close> field
  equals the matched algorithm's name: all of them, in their order, and no others.
\<close>

theorem Algorithm_page_table:
  "(\<not> (\<exists>a\<in>set algorithms. Some (name a) = algorithmName) \<longrightarrow>
      Algorithm_page u algorithmName algorithms (Some d) = NotFound
      \<and> table_rows (Algorithm_page u algorithmName algorithms (Some d)) = None)
   \<and> (\<forall>a. find (\<lambda>a. Some (name a) = algorithmName) algorithms = Some a \<longrightarrow>
         Some (name a) = algorithmName
         \<and> Algorithm_page u algorithmName algorithms (Some d) \<noteq> NotFound
         \<and> table_rows (Algorithm_page u algorithmName algorithms (Some d)) =
             Some (filter (\<lambda>r. algorithm r = name a) (results d))
         \<and> set (filter (\<lambda>r. algorithm r = name a) (results d)) =
             {r \<in> set (results d). algorithm r = name a})"
proof (intro conjI impI allI)
  assume none: "\<not> (\<exists>a\<in>set algorithms. Some (name a) = algorithmName)"
  then have "find (\<lambda>a. Some (name a) = algorithmName) algorithms = None"
    by (simp add: find_None_iff)
  then show "Algorithm_page u algorithmName algorithms (Some d) = NotFound"
    and "table_rows (Algorithm_page u algorithmName algorithms (Some d)) = None"
    by (simp_all add: Algorithm_page_def)
next
  fix a
  assume f: "find (\<lambda>a. Some (name a) = algorithmName) algorithms = Some a"
  then show "Some (name a) = algorithmName"
    by (auto simp: find_Some_iff)
  from f show "Algorithm_page u algorithmName algorithms (Some d) \<noteq> NotFound"
    by (simp add: Algorithm_page_def Let_def)
  from f show "table_rows (Algorithm_page u algorithmName algorithms (Some d)) =
             Some (filter (\<lambda>r. algorithm r = name a) (results d))"
    by (simp add: Algorithm_page_def Let_def)
  show "set (filter (\<lambda>r. algorithm r = name a) (results d)) =
             {r \<in> set (results d). algorithm r = name a}"
    by simp
qed

theorem Algorithm_page_table_witness:
  "\<not> (\<exists>a\<in>set [sample_algorithm ''zlib'', sample_algorithm ''zstd''].
         Some (name a) = Some ''lzma'')
   \<and> Algorithm_page (\<lambda>rs d a. ()) (Some ''lzma'')
        [sample_algorithm ''zlib'', sample_algorithm ''zstd'']
        (Some \<lparr>results = [sample_result ''ephys'' ''zlib'', sample_result ''ephys'' ''zstd'',
                           sample_result ''imaging'' ''zlib'']\<rparr>) = NotFound
   \<and> find (\<lambda>a. Some (name a) = Some ''zlib'')
        [sample_algorithm ''zlib'', sample_algorithm ''zstd''] = Some (sample_algorithm ''zlib'')
   \<and> table_rows (Algorithm_page (\<lambda>rs d a. ()) (Some ''zlib'')
        [sample_algorithm ''zlib'', sample_algorithm ''zstd'']
        (Some \<lparr>results = [sample_result ''ephys'' ''zlib'', sample_result ''ephys'' ''zstd'',
                           sample_result ''imaging'' ''zlib'']\<rparr>))
       = Some [sample_result ''ephys'' ''zlib'', sample_result ''imaging'' ''zlib'']"
  using
    Algorithm_page_table [of "[sample_algorithm ''zlib'', sample_algorithm ''zstd'']"
      "Some ''lzma''" "\<lambda>rs d a. ()"
      "\<lparr>results = [sample_result ''ephys'' ''zlib'', sample_result ''ephys'' ''zstd'',
                           sample_result ''imaging'' ''zlib'']\<rparr>"]
    Algorithm_page_table [of "[sample_algorithm ''zlib'', sample_algorithm ''zstd'']"
      "Some ''zlib''" "\<lambda>rs d a. ()"
      "\<lparr>results = [sample_result ''ephys'' ''zlib'', sample_result ''ephys'' ''zstd'',
                           sample_result ''imaging'' ''zlib'']\<rparr>"]
  by (simp add: sample_algorithm_def sample_result_def)

section \<open>Properties of the orchestration engine\<close>

subsection \<open>The cache holds results of their keys\<close>




lemma cache_to_stored [simp]: "cache (to_stored env k r s) = cache s"
  by (simp add: to_stored_def)

lemma cache_to_failed [simp]: "cache (to_failed env k why s) = cache s"
  by (simp add: to_failed_def)



lemma last_run_trace_in: "last (run_trace env s ks) \<in> set (run_trace env s ks)"
  by (cases ks) simp_all

lemma last_orchestrate_in: "last (orchestrate env c keys) \<in> set (orchestrate env c keys)"
  by (simp add: orchestrate_def last_run_trace_in)





subsection \<open>Only verified results are stored\<close>

lemma set_merge_result: "set (merge_result r rs) \<subseteq> insert r (set rs)"
  by (auto simp: merge_result_def)

lemma verified_in_runI:
  assumes "k \<in> set keys" and "run env k = Inr out"
    and "verify env (generate env k) (decoded_array out) (declared_tolerance env k)"
  shows "verified_in_run env keys (make_result env k (generate env k) out)"
  unfolding verified_in_run_def list_ex_iff
  using assms by (intro bexI [of _ k]) simp_all

lemma get_cached:
  assumes "get up c k = (hit, c')"
  shows "(\<forall>r. hit = Some r \<longrightarrow> cached c r) \<and> (\<forall>r. cached c' r \<longrightarrow> cached c r)"
  using assms
  by (auto simp: get_def cached_def split: option.splits if_splits)

lemma put_cached:
  assumes "cached (put up c k r) x"
  shows "x = r \<or> cached c x"
  using assms
  by (auto simp: put_def cached_def split: if_splits)

lemma result_store_to_stored:
  "set (result_store (to_stored env k r s)) \<subseteq> insert r (set (result_store s))"
  using set_merge_result by (simp add: to_stored_def)

lemma result_store_to_failed [simp]:
  "result_store (to_failed env k why s) = result_store s"
  by (simp add: to_failed_def)

lemma process_key_provenance:
  assumes inv: "provenance V env keys s" and k: "k \<in> set keys"
  shows "provenance V env keys (process_key env s k)"
proof -
  let ?ok = "\<lambda>r. V r \<or> verified_in_run env keys r"
  obtain hit c where g: "get (remote_up env k) (cache s) k = (hit, c)"
    by (cases "get (remote_up env k) (cache s) k")
  from get_cached [OF g] inv
  have hit: "\<And>r. hit = Some r \<Longrightarrow> ?ok r" and c: "\<And>r. cached c r \<Longrightarrow> ?ok r"
    by (auto simp: provenance_def)
  from inv have st: "\<And>r. r \<in> set (result_store s) \<Longrightarrow> ?ok r"
    by (auto simp: provenance_def)
  show ?thesis
  proof (cases hit)
    case (Some r)
    then have "process_key env s k = to_stored env k r (s\<lparr>cache := c\<rparr>)"
      using g by (simp add: process_key_def)
    moreover have "?ok r" using hit Some by simp
    ultimately show ?thesis
      using st c result_store_to_stored [of env k r "s\<lparr>cache := c\<rparr>"]
      by (auto simp: provenance_def)
  next
    case None
    show ?thesis
    proof (cases "run env k")
      case (Inl e)
      then have "process_key env s k = to_failed env k (ExecutionFailed e) (s\<lparr>cache := c\<rparr>)"
        using g None by (simp add: process_key_def)
      then show ?thesis
        using st c by (auto simp: provenance_def)
    next
      case (Inr out)
      show ?thesis
      proof (cases "verify env (generate env k) (decoded_array out) (declared_tolerance env k)")
        case False
        then have "process_key env s k = to_failed env k VerificationFailure (s\<lparr>cache := c\<rparr>)"
          using g None Inr by (simp add: process_key_def)
        then show ?thesis
          using st c by (auto simp: provenance_def)
      next
        case True
        let ?r = "make_result env k (generate env k) out"
        have p: "process_key env s k =
                   to_stored env k ?r (s\<lparr>cache := put (remote_up env k) c k ?r\<rparr>)"
          using g None Inr True by (simp add: process_key_def Let_def)
        have r: "?ok ?r"
          using verified_in_runI [OF k Inr True] by simp
        have "\<And>x. cached (put (remote_up env k) c k ?r) x \<Longrightarrow> ?ok x"
          using put_cached c r by blast
        then show ?thesis
          unfolding p provenance_def
          using st r
            result_store_to_stored [of env k ?r "s\<lparr>cache := put (remote_up env k) c k ?r\<rparr>"]
          by auto
      qed
    qed
  qed
qed

lemma run_trace_provenance:
  assumes "provenance V env keys s" and "set ks \<subseteq> set keys"
    and "s' \<in> set (run_trace env s ks)"
  shows "provenance V env keys s'"
  using assms
proof (induction ks arbitrary: s)
  case Nil
  then show ?case by simp
next
  case (Cons k ks)
  from Cons.prems have "provenance V env keys (process_key env s k)"
    by (simp add: process_key_provenance)
  with Cons show ?case by auto
qed

lemma orchestrate_provenance:
  assumes "\<forall>r. cached c r \<longrightarrow> V r" and "s \<in> set (orchestrate env c keys)"
  shows "provenance V env keys s"
proof -
  have "provenance V env keys (start c keys)"
    using assms(1) by (simp add: provenance_def start_def)
  then show ?thesis
    using assms(2) run_trace_provenance [of V env keys "start c keys" keys s]
    by (simp add: orchestrate_def)
qed

lemma verified_in_history_Cons:
  "verified_in_history ((env, keys) # earlier) r \<longleftrightarrow>
     verified_in_run env keys r \<or> verified_in_history earlier r"
  by (simp add: verified_in_history_def)

lemma cache_after_verified:
  "cached (cache_after earlier) r \<Longrightarrow> verified_in_history earlier r"
proof (induction earlier arbitrary: r)
  case Nil
  then show ?case by (simp add: cached_def empty_cache_def)
next
  case (Cons run earlier)
  obtain env keys where run: "run = (env, keys)"
    by (cases run)
  have "\<forall>x. cached (cache_after earlier) x \<longrightarrow> verified_in_history earlier x"
    using Cons.IH by blast
  then have "provenance (verified_in_history earlier) env keys
               (last (orchestrate env (cache_after earlier) keys))"
    using last_orchestrate_in by (rule orchestrate_provenance)
  with Cons.prems show ?case
    unfolding run by (auto simp: provenance_def verified_in_history_Cons)
qed

text \<open>
  C3. In every state of a run of the orchestrator, every result present in the Result
  Store went through a successful verification: it is the result of an execution of this
  run or of an earlier run (whose result the cache returned) that the verifier accepted.
  No execution whose verification failed or did not occur is stored.
\<close>

theorem stored_results_are_verified:
  assumes "s \<in> set (orchestrate env (cache_after earlier) keys)"
    and "r \<in> set (result_store s)"
  shows "verified_in_history ((env, keys) # earlier) r"
proof -
  have "\<forall>x. cached (cache_after earlier) x \<longrightarrow> verified_in_history earlier x"
    using cache_after_verified by blast
  then have "provenance (verified_in_history earlier) env keys s"
    using assms(1) by (rule orchestrate_provenance)
  with assms(2) show ?thesis
    by (auto simp: provenance_def verified_in_history_Cons)
qed

theorem stored_results_are_verified_witness:
  "last (orchestrate sample_env (cache_after [])
           [sample_key ''zlib'', sample_key ''broken'', sample_key ''lossy''])
     \<in> set (orchestrate sample_env (cache_after [])
           [sample_key ''zlib'', sample_key ''broken'', sample_key ''lossy''])
   \<and> result_store (last (orchestrate sample_env (cache_after [])
           [sample_key ''zlib'', sample_key ''broken'', sample_key ''lossy'']))
       = [make_result sample_env (sample_key ''zlib'') sample_array
            (sample_outcome (sample_key ''zlib''))]
   \<and> map snd (failed (last (orchestrate sample_env (cache_after [])
           [sample_key ''zlib'', sample_key ''broken'', sample_key ''lossy''])))
       = [ExecutionFailed Crash, VerificationFailure]
   \<and> verified_in_history
         [(sample_env, [sample_key ''zlib'', sample_key ''broken'', sample_key ''lossy''])]
         (make_result sample_env (sample_key ''zlib'') sample_array
            (sample_outcome (sample_key ''zlib'')))"
proof -
  let ?ks = "[sample_key ''zlib'', sample_key ''broken'', sample_key ''lossy'']"
  let ?s = "last (orchestrate sample_env (cache_after []) ?ks)"
  let ?R = "make_result sample_env (sample_key ''zlib'') sample_array
              (sample_outcome (sample_key ''zlib''))"
  have m: "?s \<in> set (orchestrate sample_env (cache_after []) ?ks)"
    by (rule last_orchestrate_in)
  have st: "result_store ?s = [?R] \<and>
            map snd (failed ?s) = [ExecutionFailed Crash, VerificationFailure]"
    by (simp add: orchestrate_def start_def process_key_def get_def put_def empty_cache_def
        sample_env_def sample_outcome_def sample_key_def sample_array_def to_stored_def
        to_failed_def merge_result_def Let_def)
  then have "?R \<in> set (result_store ?s)"
    by simp
  from stored_results_are_verified [OF m this] m st show ?thesis
    by simp
qed

subsection \<open>Executions across runs\<close>











subsection \<open>The reservation protocol\<close>

lemma set_phase_simps [simp]:
  "workers (set_phase w ph p) = (workers p)(w := ph)"
  "reserved (set_phase w ph p) = reserved p"
  "execution_log (set_phase w ph p) = execution_log p"
  "engine (set_phase w ph p) = engine p"
  by (simp_all add: set_phase_def)












text \<open>
  One worker that takes a key that is not reserved through its state machine does what
  the sequential orchestrator does for that key.
\<close>

lemma pool_single_worker:
  assumes w: "workers p w = Idle" and k: "k \<in> set keys" and free: "k \<notin> reserved p"
  shows "engine (foldl (perform env keys) p (key_schedule w k)) = process_key env (engine p) k"
proof -
  obtain h c where g: "get (remote_up env k) (cache (engine p)) k = (h, c)"
    by (cases "get (remote_up env k) (cache (engine p)) k")
  note defs = key_schedule_def perform_def advance_def lookup_def process_key_def
  show ?thesis
  proof (cases h)
    case (Some r)
    then show ?thesis using w k free g by (simp add: defs)
  next
    case None
    show ?thesis
    proof (cases "run env k")
      case (Inl e)
      then show ?thesis using w k free g None by (simp add: defs)
    next
      case (Inr out)
      then show ?thesis using w k free g None by (simp add: defs Let_def)
    qed
  qed
qed




subsection \<open>Progress\<close>





end
